theory Spec2Isabelle
  imports Main "HOL-Library.Sublist"
begin

section \<open>Python strings, console and builtins used by the program\<close>

text \<open>
  A Python \<open>str\<close> is a sequence of Unicode code points, and \<open>len\<close>, indexing, iteration
  and field widths all count code points. A character is therefore modelled by its code
  point, and a string by the list of its code points. \<open>py\<close> reads an ASCII literal.
\<close>

type_synonym codepoint = nat
type_synonym pystr = "codepoint list"

definition py :: "string \<Rightarrow> pystr" where
  "py s = map of_char s"

datatype error = IndexError | EOFError

text \<open>
  The console: the lines still to be read from standard input (without their line
  terminator) and everything written to standard output so far.
\<close>

record world =
  stdin :: "pystr list"
  stdout :: pystr

definition newline :: codepoint where
  "newline = 10"

definition space :: codepoint where
  "space = 32"

text \<open>\<open>print(x)\<close> for a string \<open>x\<close>: writes \<open>x\<close> and a line terminator.\<close>

definition print :: "pystr \<Rightarrow> world \<Rightarrow> world" where
  "print x w = w\<lparr>stdout := stdout w @ x @ [newline]\<rparr>"

text \<open>
  \<open>input(prompt)\<close>: writes the prompt without a line terminator, then reads one line;
  at end of input it raises \<open>EOFError\<close> (the prompt has been written by then).
\<close>

definition py_input :: "pystr \<Rightarrow> world \<Rightarrow> (error + pystr) \<times> world" where
  "py_input prompt w =
     (let w1 = w\<lparr>stdout := stdout w @ prompt\<rparr>
      in case stdin w1 of
           [] \<Rightarrow> (Inl EOFError, w1)
         | line # rest \<Rightarrow> (Inr line, w1\<lparr>stdin := rest\<rparr>))"

text \<open>\<open>str.isspace\<close> on one character: the code points Python treats as whitespace.\<close>

definition py_isspace :: "codepoint \<Rightarrow> bool" where
  "py_isspace c \<longleftrightarrow>
     (9 \<le> c \<and> c \<le> 13) \<or> (28 \<le> c \<and> c \<le> 32) \<or> c = 133 \<or> c = 160 \<or> c = 5760
     \<or> (8192 \<le> c \<and> c \<le> 8202) \<or> c = 8232 \<or> c = 8233 \<or> c = 8239 \<or> c = 8287
     \<or> c = 12288"

text \<open>\<open>s.strip()\<close>: drops the leading and the trailing run of whitespace.\<close>

definition py_strip :: "pystr \<Rightarrow> pystr" where
  "py_strip s = rev (dropWhile py_isspace (rev (dropWhile py_isspace s)))"

text \<open>\<open>sub in s\<close> on strings: \<open>sub\<close> occurs in \<open>s\<close> as a contiguous substring.\<close>

fun py_in :: "pystr \<Rightarrow> pystr \<Rightarrow> bool" where
  "py_in sub [] = (sub = [])"
| "py_in sub (c # cs) = (prefix sub (c # cs) \<or> py_in sub cs)"

text \<open>\<open>list(range(start, stop, -1))\<close>: \<open>start, start - 1, ...\<close> while above \<open>stop\<close>.\<close>

function py_range_desc :: "int \<Rightarrow> int \<Rightarrow> int list" where
  "py_range_desc start stop =
     (if stop < start then start # py_range_desc (start - 1) stop else [])"
  by pat_completeness auto
termination
  by (relation "measure (\<lambda>(start, stop). nat (start - stop))") auto

declare py_range_desc.simps [simp del]

text \<open>\<open>xs[i]\<close> for an index \<open>i \<ge> 0\<close>: raises \<open>IndexError\<close> out of range.\<close>

definition py_index :: "'a list \<Rightarrow> nat \<Rightarrow> error + 'a" where
  "py_index xs i = (if i < length xs then Inr (xs ! i) else Inl IndexError)"

text \<open>Decimal digits of a natural number, most significant first, as \<open>str(n)\<close> gives.\<close>

fun digits :: "nat \<Rightarrow> pystr" where
  "digits n = (if n < 10 then [48 + n] else digits (n div 10) @ [48 + n mod 10])"

declare digits.simps [simp del]

definition py_str_int :: "int \<Rightarrow> pystr" where
  "py_str_int n = (if n < 0 then 45 # digits (nat (- n)) else digits (nat n))"

text \<open>
  The format specification \<open>^width\<close> applied to a text \<open>v\<close> (a string as it is, an integer
  after its decimal rendering): the field is as wide as the larger of \<open>width\<close> and the
  text, the left padding is half of the free room rounded down, the right padding is the
  rest; the fill character is the space.
\<close>

definition format_center :: "pystr \<Rightarrow> nat \<Rightarrow> pystr" where
  "format_center v width =
     (let nchars = length v;
          n_total = (if nchars > width then nchars else width);
          n_lpadding = (n_total - nchars) div 2;
          n_rpadding = n_total - nchars - n_lpadding
      in replicate n_lpadding space @ v @ replicate n_rpadding space)"

text \<open>
  Joining the items a generator yields: the first item whose evaluation raises ends the
  join with that error.
\<close>

fun join :: "(error + pystr) list \<Rightarrow> error + pystr" where
  "join [] = Inr []"
| "join (Inl e # xs) = Inl e"
| "join (Inr x # xs) = (case join xs of Inl e \<Rightarrow> Inl e | Inr r \<Rightarrow> Inr (x @ r))"

section \<open>The program\<close>

definition width :: nat where
  "width = 3"

text \<open>The validation test of the function: \<open>all(bit in "01" for bit in binary_string)\<close>.\<close>

definition all_binary :: "pystr \<Rightarrow> bool" where
  "all_binary binary_string = list_all (\<lambda>bit. py_in [bit] (py ''01'')) binary_string"

definition bits_line :: "pystr \<Rightarrow> pystr" where
  "bits_line binary_string = concat (map (\<lambda>bit. format_center [bit] width) binary_string)"

definition reversed_indices :: "pystr \<Rightarrow> int list" where
  "reversed_indices binary_string = py_range_desc (int (length binary_string) - 1) (- 1)"

definition indices_line :: "pystr \<Rightarrow> error + pystr" where
  "indices_line binary_string =
     join (map (\<lambda>(i, bit).
                  if bit = of_char CHR ''1''
                  then (case py_index (reversed_indices binary_string) i of
                          Inl e \<Rightarrow> Inl e
                        | Inr v \<Rightarrow> Inr (format_center (py_str_int v) width))
                  else Inr (replicate width space))
               (enumerate 0 binary_string))"

definition error_message :: pystr where
  "error_message = py ''Error: Input must be a binary string containing only '0' and '1'.''"

definition print_binary_with_one_indices_reversed :: "pystr \<Rightarrow> world \<Rightarrow> error option \<times> world" where
  "print_binary_with_one_indices_reversed binary_string w =
     (if \<not> all_binary binary_string then (None, print error_message w)
      else
        let w1 = print (bits_line binary_string) w
        in case indices_line binary_string of
             Inl e \<Rightarrow> (Some e, w1)
           | Inr line \<Rightarrow> (None, print line w1))"

definition prompt :: pystr where
  "prompt = py ''Enter a binary string: ''"

definition main :: "world \<Rightarrow> error option \<times> world" where
  "main w =
     (case py_input prompt w of
        (Inl e, w1) \<Rightarrow> (Some e, w1)
      | (Inr line, w1) \<Rightarrow> print_binary_with_one_indices_reversed (py_strip line) w1)"

section \<open>What the specification says, in its own words\<close>

text \<open>
  Centering as the specification describes it: the total padding is the width less the
  length of the value (none when the value is wider than the field), its left part is
  half of it rounded down, the right part the rest.
\<close>

definition spec_center :: "nat \<Rightarrow> pystr \<Rightarrow> pystr" where
  "spec_center wd v =
     (let total_pad = wd - length v; left = total_pad div 2; right = total_pad - left
      in replicate left space @ v @ replicate right space)"

definition spec_bits_line :: "pystr \<Rightarrow> pystr" where
  "spec_bits_line s = concat (map (\<lambda>c. spec_center 3 [c]) s)"

text \<open>
  The field under position \<open>i\<close> of an input \<open>s\<close> of length \<open>N\<close>: the decimal rendering
  of \<open>N-1-i\<close>, centered, under a \<open>1\<close>; three spaces otherwise.
\<close>

definition spec_field :: "pystr \<Rightarrow> nat \<Rightarrow> pystr" where
  "spec_field s i =
     (if s ! i = of_char CHR ''1''
      then spec_center 3 (digits (length s - 1 - i))
      else replicate 3 space)"

definition spec_indices_line :: "pystr \<Rightarrow> pystr" where
  "spec_indices_line s = concat (map (spec_field s) [0..<length s])"

section \<open>The source against the specification's wording\<close>

lemma py_in_01: "py_in [c] (py ''01'') \<longleftrightarrow> c = 48 \<or> c = 49"
  by (auto simp add: py_def)

lemma all_binary_iff: "all_binary s \<longleftrightarrow> (\<forall>c\<in>set s. c = 48 \<or> c = 49)"
  by (simp add: all_binary_def list_all_iff py_in_01)

lemma all_binary_subset:
  "set s \<subseteq> {of_char CHR ''0'', of_char CHR ''1''} \<Longrightarrow> all_binary s"
  by (auto simp add: all_binary_iff)

subsection \<open>The lines the function builds\<close>

lemma py_range_desc_rev: "py_range_desc (int n - 1) (- 1) = map int (rev [0..<n])"
proof (induction n)
  case 0
  show ?case by (simp add: py_range_desc.simps)
next
  case (Suc n)
  have "py_range_desc (int (Suc n) - 1) (- 1) = int n # py_range_desc (int n - 1) (- 1)"
    by (subst py_range_desc.simps) simp
  with Suc show ?case by simp
qed

lemma reversed_indices_length: "length (reversed_indices s) = length s"
  by (simp add: reversed_indices_def py_range_desc_rev)

lemma reversed_indices_index:
  "i < length s \<Longrightarrow> py_index (reversed_indices s) i = Inr (int (length s - 1 - i))"
  by (simp add: py_index_def reversed_indices_def py_range_desc_rev rev_nth)

lemma join_map_Inr: "join (map (\<lambda>x. Inr (f x)) xs) = Inr (concat (map f xs))"
  by (induction xs) simp_all

lemma format_center_spec: "format_center v wd = spec_center wd v"
  by (simp add: format_center_def spec_center_def Let_def)

lemma bits_line_spec: "bits_line s = spec_bits_line s"
  by (simp add: bits_line_def spec_bits_line_def format_center_spec width_def)

lemma enumerate_nth_map: "enumerate 0 s = map (\<lambda>i. (i, s ! i)) [0..<length s]"
  by (rule nth_equalityI) (simp_all add: nth_enumerate_eq)

lemma py_str_int_nat: "py_str_int (int k) = digits k"
  by (simp add: py_str_int_def)

lemma index_field:
  assumes "i < length s"
  shows "(case py_index (reversed_indices s) i of
            Inl e \<Rightarrow> Inl e
          | Inr v \<Rightarrow> Inr (format_center (py_str_int v) width))
         = Inr (spec_center 3 (digits (length s - 1 - i)))"
  by (simp only: reversed_indices_index [OF assms] sum.case py_str_int_nat
      format_center_spec width_def)

lemma indices_line_spec: "indices_line s = Inr (spec_indices_line s)"
proof -
  have "map (\<lambda>(i, bit).
                  if bit = of_char CHR ''1''
                  then (case py_index (reversed_indices s) i of
                          Inl e \<Rightarrow> Inl e
                        | Inr v \<Rightarrow> Inr (format_center (py_str_int v) width))
                  else Inr (replicate width space))
               (enumerate 0 s)
     = map (\<lambda>i. Inr (spec_field s i)) [0..<length s]"
    by (simp add: enumerate_nth_map index_field width_def spec_field_def)
  then show ?thesis
    unfolding indices_line_def spec_indices_line_def by (simp only: join_map_Inr)
qed

lemma print_valid:
  "all_binary s \<Longrightarrow>
   print_binary_with_one_indices_reversed s w =
     (None, w\<lparr>stdout := stdout w @ spec_bits_line s @ [newline] @ spec_indices_line s @ [newline]\<rparr>)"
  by (simp add: print_binary_with_one_indices_reversed_def indices_line_spec bits_line_spec
      print_def)

lemma print_invalid:
  "\<not> all_binary s \<Longrightarrow>
   print_binary_with_one_indices_reversed s w =
     (None, w\<lparr>stdout := stdout w @ error_message @ [newline]\<rparr>)"
  by (simp add: print_binary_with_one_indices_reversed_def print_def)

lemma spec_center_one: "spec_center 3 [c] = [space, c, space]"
  by (simp add: spec_center_def Let_def numeral_3_eq_3)

lemma digits_small: "n < 10 \<Longrightarrow> digits n = [48 + n]"
  by (simp add: digits.simps)

lemma digits_two: "10 \<le> n \<Longrightarrow> n < 100 \<Longrightarrow> digits n = [48 + n div 10, 48 + n mod 10]"
  by (subst digits.simps) (simp add: digits_small)

subsection \<open>Field widths\<close>

lemma digits_rec: "10 \<le> n \<Longrightarrow> digits n = digits (n div 10) @ [48 + n mod 10]"
  by (subst digits.simps) simp

lemma digits_length_pos: "0 < length (digits n)"
  by (subst digits.simps) simp

lemma digits_length_le3: "n < 1000 \<Longrightarrow> length (digits n) \<le> 3"
proof -
  assume n: "n < 1000"
  have "n < 10 \<or> (10 \<le> n \<and> n < 100) \<or> (100 \<le> n \<and> n < 1000)" using n by arith
  then show ?thesis
  proof (elim disjE conjE)
    assume "n < 10" then show ?thesis by (simp add: digits_small)
  next
    assume "10 \<le> n" "n < 100" then show ?thesis by (simp add: digits_two)
  next
    assume a: "100 \<le> n" "n < 1000"
    then have "10 \<le> n div 10" "n div 10 < 100" by simp_all
    then have "length (digits (n div 10)) = 2" by (simp add: digits_two)
    with a show ?thesis by (simp add: digits_rec)
  qed
qed

lemma digits_length_ge4: "1000 \<le> n \<Longrightarrow> 4 \<le> length (digits n)"
proof -
  assume n: "1000 \<le> n"
  then have a: "10 \<le> n" "10 \<le> n div 10" "10 \<le> n div 10 div 10" by simp_all
  have "length (digits n) = length (digits (n div 10 div 10 div 10)) + 3"
    by (simp add: digits_rec [OF a(1)] digits_rec [OF a(2)] digits_rec [OF a(3)])
  with digits_length_pos [of "n div 10 div 10 div 10"] show ?thesis by (simp add: Suc_le_eq)
qed

lemma spec_center_length: "length (spec_center 3 v) = max 3 (length v)"
  by (simp add: spec_center_def Let_def)

lemma concat_map_length_const:
  "(\<forall>x\<in>set xs. length (f x) = k) \<Longrightarrow> length (concat (map f xs)) = k * length xs"
  by (induction xs) simp_all

lemma concat_map_length_ge:
  "(\<forall>x\<in>set xs. k \<le> length (f x)) \<Longrightarrow> k * length xs \<le> length (concat (map f xs))"
  by (induction xs) (simp_all add: add_mono)

lemma concat_map_length_gt:
  "(\<forall>x\<in>set xs. k \<le> length (f x)) \<Longrightarrow> y \<in> set xs \<Longrightarrow> k < length (f y)
   \<Longrightarrow> k * length xs < length (concat (map f xs))"
proof (induction xs)
  case Nil
  then show ?case by simp
next
  case (Cons x xs)
  from Cons.prems(1) have ge: "k * length xs \<le> length (concat (map f xs))"
    by (simp add: concat_map_length_ge)
  from Cons.prems(1) have kx: "k \<le> length (f x)" by simp
  show ?case
  proof (cases "y = x")
    case True
    with Cons.prems(3) ge show ?thesis by simp
  next
    case False
    with Cons.prems have "y \<in> set xs" by simp
    with Cons.IH Cons.prems have "k * length xs < length (concat (map f xs))" by simp
    with kx show ?thesis by simp
  qed
qed

lemma concat_map_field:
  "(\<forall>x\<in>set xs. length (f x) = k) \<Longrightarrow> i < length xs
   \<Longrightarrow> take k (drop (k * i) (concat (map f xs))) = f (xs ! i)"
proof (induction xs arbitrary: i)
  case Nil
  then show ?case by simp
next
  case (Cons x xs)
  show ?case
  proof (cases i)
    case 0
    with Cons.prems show ?thesis by simp
  next
    case (Suc j)
    with Cons.prems have "take k (drop (k * j) (concat (map f xs))) = f (xs ! j)"
      by (intro Cons.IH) simp_all
    with Cons.prems Suc show ?thesis by simp
  qed
qed

lemma spec_field_length_ge: "3 \<le> length (spec_field s i)"
  by (simp add: spec_field_def spec_center_length)

lemma spec_field_length_3: "length s \<le> 1000 \<Longrightarrow> i < length s \<Longrightarrow> length (spec_field s i) = 3"
  using digits_length_le3 [of "length s - 1 - i"]
  by (simp add: spec_field_def spec_center_length)

lemma bits_length: "length (spec_bits_line s) = 3 * length s"
  unfolding spec_bits_line_def
  by (rule concat_map_length_const) (simp add: spec_center_one)

text \<open>
  \<open>digits\<close> is the decimal rendering: decimal digit characters only, whose value read
  in base ten is the number, with no leading zero except for zero itself.
\<close>

lemma digits_are_decimal:
  "(\<forall>d\<in>set (digits n). 48 \<le> d \<and> d \<le> 57)
   \<and> foldl (\<lambda>a d. 10 * a + (d - 48)) 0 (digits n) = n
   \<and> (hd (digits n) = 48 \<longrightarrow> n = 0)"
proof (induction n rule: digits.induct)
  case (1 n)
  show ?case
  proof (cases "n < 10")
    case True
    then show ?thesis by (simp add: digits_small)
  next
    case False
    then have r: "digits n = digits (n div 10) @ [48 + n mod 10]"
      by (simp add: digits_rec)
    from False have nz: "n div 10 \<noteq> 0" by simp
    from 1 [OF False] nz digits_length_pos [of "n div 10"] show ?thesis
      by (simp add: r)
  qed
qed

subsection \<open>Stripping whitespace\<close>

lemma binary_not_space: "all_binary s \<Longrightarrow> c \<in> set s \<Longrightarrow> \<not> py_isspace c"
  by (auto simp add: all_binary_iff py_isspace_def)

lemma dropWhile_all: "list_all P xs \<Longrightarrow> dropWhile P (xs @ ys) = dropWhile P ys"
  by (simp add: list_all_iff)

lemma dropWhile_none: "\<forall>x\<in>set xs. \<not> P x \<Longrightarrow> dropWhile P (xs @ ys) = (if xs = [] then dropWhile P ys else xs @ ys)"
  by (cases xs) simp_all

lemma py_strip_core:
  assumes l: "list_all py_isspace l" and r: "list_all py_isspace r"
    and core: "\<forall>c\<in>set core. \<not> py_isspace c"
  shows "py_strip (l @ core @ r) = core"
proof (cases "core = []")
  case True
  with l r have a: "dropWhile py_isspace (l @ core @ r) = []"
    by (simp add: dropWhile_eq_Nil_conv list_all_iff)
  show ?thesis unfolding py_strip_def a using True by simp
next
  case False
  have 1: "dropWhile py_isspace (l @ core @ r) = core @ r"
    using l core False by (simp add: dropWhile_all dropWhile_none)
  have "list_all py_isspace (rev r)" using r by (simp add: list_all_iff)
  then have 2: "dropWhile py_isspace (rev r @ rev core) = rev core"
    using core False dropWhile_none [of "rev core" py_isspace "[]"]
    by (simp add: dropWhile_all)
  show ?thesis by (simp add: py_strip_def 1 2)
qed

lemma py_strip_decompose:
  "\<exists>l r. line = l @ py_strip line @ r \<and> list_all py_isspace l \<and> list_all py_isspace r
     \<and> (py_strip line = []
         \<or> \<not> py_isspace (hd (py_strip line)) \<and> \<not> py_isspace (last (py_strip line)))"
proof -
  define d where "d = dropWhile py_isspace line"
  define l where "l = takeWhile py_isspace line"
  define r where "r = rev (takeWhile py_isspace (rev d))"
  have s: "py_strip line = rev (dropWhile py_isspace (rev d))"
    by (simp add: py_strip_def d_def)
  have "d = rev (takeWhile py_isspace (rev d) @ dropWhile py_isspace (rev d))"
    by (simp only: takeWhile_dropWhile_id rev_rev_ident)
  then have d: "d = py_strip line @ r"
    by (simp only: rev_append s r_def)
  have line: "line = l @ py_strip line @ r"
    using takeWhile_dropWhile_id [of py_isspace line] by (simp add: l_def d_def [symmetric] d)
  have wl: "list_all py_isspace l"
    by (auto simp add: l_def list_all_iff dest: set_takeWhileD)
  have wr: "list_all py_isspace r"
    by (auto simp add: r_def list_all_iff dest: set_takeWhileD)
  have ends: "\<not> py_isspace (hd (py_strip line)) \<and> \<not> py_isspace (last (py_strip line))"
    if ne: "py_strip line \<noteq> []"
  proof
    from ne d have "d \<noteq> []" by auto
    then have "\<not> py_isspace (hd d)" unfolding d_def by (rule hd_dropWhile)
    moreover from ne d have "hd d = hd (py_strip line)" by (metis hd_append2)
    ultimately show "\<not> py_isspace (hd (py_strip line))" by simp
  next
    from ne have n: "dropWhile py_isspace (rev d) \<noteq> []" by (simp add: s)
    then have "\<not> py_isspace (hd (dropWhile py_isspace (rev d)))" by (rule hd_dropWhile)
    with n show "\<not> py_isspace (last (py_strip line))" by (simp add: s last_rev)
  qed
  from line wl wr ends show ?thesis by blast
qed

lemma main_reads_line:
  "stdin w = line # rest \<Longrightarrow>
   main w = print_binary_with_one_indices_reversed (py_strip line)
              (w\<lparr>stdout := stdout w @ prompt, stdin := rest\<rparr>)"
  by (simp add: main_def py_input_def Let_def)

section \<open>Validation\<close>

text \<open>
  C3: validation succeeds exactly when every character is \<open>0\<close> or \<open>1\<close>. Hence the
  empty string is accepted, and a string with any other character, of whatever code
  point, is rejected.
\<close>

theorem validation_iff_all_binary:
  "(all_binary s \<longleftrightarrow> (\<forall>c\<in>set s. c = of_char CHR ''0'' \<or> c = of_char CHR ''1''))
   \<and> all_binary []
   \<and> (c \<noteq> of_char CHR ''0'' \<and> c \<noteq> of_char CHR ''1'' \<longrightarrow> \<not> all_binary (xs @ c # ys))"
  by (auto simp add: all_binary_iff)

theorem validation_iff_all_binary_witness:
  "all_binary (py ''0110'') \<and> \<not> all_binary (py ''01'' @ 233 # py ''1'')"
  using validation_iff_all_binary [of "py ''0110''" 233 "py ''01''" "py ''1''"]
  by (simp add: py_def)

section \<open>The two printed lines\<close>

text \<open>
  C1: for an input of length \<open>N\<close> made of \<open>0\<close> and \<open>1\<close> only, the second printed line
  is the concatenation, over the positions \<open>i = 0..N-1\<close> in order, of the decimal
  rendering of \<open>N-1-i\<close> centered in a field of 3 where the character at \<open>i\<close> is \<open>1\<close>,
  and of exactly 3 spaces where it is \<open>0\<close>. No index read fails, and the line follows
  the bits line on standard output.
\<close>

theorem second_line_is_reversed_indices:
  assumes "set s \<subseteq> {of_char CHR ''0'', of_char CHR ''1''}"
  shows "indices_line s = Inr (spec_indices_line s)
       \<and> print_binary_with_one_indices_reversed s w =
           (None, w\<lparr>stdout := stdout w @ bits_line s @ [newline]
                                @ spec_indices_line s @ [newline]\<rparr>)"
  using print_valid [OF all_binary_subset [OF assms], of w]
  by (simp add: indices_line_spec bits_line_spec)

theorem second_line_is_reversed_indices_witness:
  "set (py ''1101'') \<subseteq> {of_char CHR ''0'', of_char CHR ''1''}
   \<and> indices_line (py ''1101'') = Inr (py '' 3  2     0 '')
   \<and> print_binary_with_one_indices_reversed (py ''1101'') \<lparr>stdin = [], stdout = []\<rparr> =
       (None, \<lparr>stdin = [], stdout = py '' 1  1  0  1 '' @ [10] @ py '' 3  2     0 '' @ [10]\<rparr>)"
proof -
  have h: "set (py ''1101'') \<subseteq> {of_char CHR ''0'', of_char CHR ''1''}"
    by (simp add: py_def)
  have l1: "bits_line (py ''1101'') = py '' 1  1  0  1 ''"
    by code_simp
  have l2: "spec_indices_line (py ''1101'') = py '' 3  2     0 ''"
    by code_simp
  from second_line_is_reversed_indices [OF h, of "\<lparr>stdin = [], stdout = []\<rparr>"] h l1 l2
  show ?thesis by (simp add: newline_def)
qed

text \<open>
  C2: for an input made of \<open>0\<close> and \<open>1\<close> only, the first printed line is the
  concatenation, in the original order, of each input character centered in a field of
  3 (a space, the character, a space) with nothing between the fields; it is written
  before the indices line, and each line is written whole, trailing spaces included.
\<close>

theorem first_line_is_centered_bits:
  assumes "set s \<subseteq> {of_char CHR ''0'', of_char CHR ''1''}"
  shows "bits_line s = spec_bits_line s
       \<and> spec_bits_line s = concat (map (\<lambda>c. [space, c, space]) s)
       \<and> (\<exists>line2. indices_line s = Inr line2
            \<and> print_binary_with_one_indices_reversed s w =
                (None, w\<lparr>stdout := stdout w @ spec_bits_line s @ [newline]
                                     @ line2 @ [newline]\<rparr>))"
  using print_valid [OF all_binary_subset [OF assms], of w]
  by (simp add: indices_line_spec bits_line_spec spec_bits_line_def spec_center_one)

theorem first_line_is_centered_bits_witness:
  "set (py ''100'') \<subseteq> {of_char CHR ''0'', of_char CHR ''1''}
   \<and> bits_line (py ''100'') = py '' 1  0  0 ''
   \<and> print_binary_with_one_indices_reversed (py ''100'') \<lparr>stdin = [], stdout = []\<rparr> =
       (None, \<lparr>stdin = [], stdout = py '' 1  0  0 '' @ [10] @ py '' 2       '' @ [10]\<rparr>)"
proof -
  have h: "set (py ''100'') \<subseteq> {of_char CHR ''0'', of_char CHR ''1''}"
    by (simp add: py_def)
  have l1: "spec_bits_line (py ''100'') = py '' 1  0  0 ''"
    by code_simp
  have l2: "indices_line (py ''100'') = Inr (py '' 2       '')"
    by code_simp
  from first_line_is_centered_bits [OF h, of "\<lparr>stdin = [], stdout = []\<rparr>"] h l1 l2
  show ?thesis by (auto simp add: newline_def)
qed

section \<open>Invalid input\<close>

text \<open>
  C4: when the string given to the function contains a character other than \<open>0\<close> and
  \<open>1\<close>, all the function writes is the one line of the error message, on standard
  output; neither the bits line nor the indices line is written, and nothing is raised.
\<close>

theorem invalid_input_prints_only_error:
  assumes "c \<in> set s" and "c \<noteq> of_char CHR ''0''" and "c \<noteq> of_char CHR ''1''"
  shows "print_binary_with_one_indices_reversed s w =
           (None, w\<lparr>stdout := stdout w
              @ py ''Error: Input must be a binary string containing only '0' and '1'.''
              @ [newline]\<rparr>)"
proof -
  from assms have "\<not> all_binary s"
    by (auto simp add: all_binary_iff)
  then show ?thesis
    by (simp add: print_invalid error_message_def)
qed

theorem invalid_input_prints_only_error_witness:
  "print_binary_with_one_indices_reversed (py ''abc'') \<lparr>stdin = [], stdout = []\<rparr> =
     (None, \<lparr>stdin = [], stdout =
        py ''Error: Input must be a binary string containing only '0' and '1'.'' @ [10]\<rparr>)"
proof -
  have h: "of_char CHR ''b'' \<in> set (py ''abc'')"
    by (simp add: py_def)
  from invalid_input_prints_only_error [OF h, of "\<lparr>stdin = [], stdout = []\<rparr>"]
  show ?thesis by (simp add: newline_def)
qed

section \<open>Concrete inputs\<close>

text \<open>
  C6: the input \<open>0\<close> gives the lines \<open>" 0 "\<close> and three spaces; the input \<open>1\<close> gives
  \<open>" 1 "\<close> and \<open>" 0 "\<close>; the input \<open>101\<close> gives \<open>" 1  0  1 "\<close> and \<open>" 2     0 "\<close>.
\<close>

theorem concrete_inputs:
  "print_binary_with_one_indices_reversed (py ''0'') w =
     (None, w\<lparr>stdout := stdout w @ py '' 0 '' @ [newline] @ py ''   '' @ [newline]\<rparr>)
   \<and> print_binary_with_one_indices_reversed (py ''1'') w =
     (None, w\<lparr>stdout := stdout w @ py '' 1 '' @ [newline] @ py '' 0 '' @ [newline]\<rparr>)
   \<and> print_binary_with_one_indices_reversed (py ''101'') w =
     (None, w\<lparr>stdout := stdout w @ py '' 1  0  1 '' @ [newline]
                          @ py '' 2     0 '' @ [newline]\<rparr>)
   \<and> reversed_indices (py ''101'') = [2, 1, 0]"
proof -
  have v: "all_binary (py ''0'')" "all_binary (py ''1'')" "all_binary (py ''101'')"
    by code_simp+
  have b: "spec_bits_line (py ''0'') = py '' 0 ''" "spec_bits_line (py ''1'') = py '' 1 ''"
    "spec_bits_line (py ''101'') = py '' 1  0  1 ''"
    by code_simp+
  have i: "spec_indices_line (py ''0'') = py ''   ''"
    "spec_indices_line (py ''1'') = py '' 0 ''"
    "spec_indices_line (py ''101'') = py '' 2     0 ''"
    by code_simp+
  have r: "reversed_indices (py ''101'') = [2, 1, 0]"
    by code_simp
  show ?thesis
    by (simp only: print_valid [OF v(1)] print_valid [OF v(2)] print_valid [OF v(3)] b i r)
qed

text \<open>
  C7: the empty input passes validation, and both printed lines are empty: the function
  writes two line terminators and nothing else.
\<close>

theorem empty_input_prints_two_empty_lines:
  "all_binary []
   \<and> bits_line [] = []
   \<and> indices_line [] = Inr []
   \<and> print_binary_with_one_indices_reversed [] w =
       (None, w\<lparr>stdout := stdout w @ [] @ [newline] @ [] @ [newline]\<rparr>)"
  by (simp add: all_binary_def bits_line_def indices_line_def enumerate_eq_zip
      print_binary_with_one_indices_reversed_def print_def)

section \<open>Determinism\<close>

text \<open>
  C8: what the function raises and writes is determined by its argument alone: there is
  one outcome and one output text that every call with this argument produces, whatever
  the console held before; a second call with the same argument writes the same text
  again. Standard input is not read.
\<close>

theorem output_depends_on_argument_only:
  "\<exists>e out. \<forall>w.
     print_binary_with_one_indices_reversed s w = (e, w\<lparr>stdout := stdout w @ out\<rparr>)
     \<and> print_binary_with_one_indices_reversed s
          (snd (print_binary_with_one_indices_reversed s w))
         = (e, w\<lparr>stdout := stdout w @ out @ out\<rparr>)"
proof (cases "all_binary s")
  case True
  show ?thesis
    by (rule exI [of _ None],
        rule exI [of _ "spec_bits_line s @ [newline] @ spec_indices_line s @ [newline]"])
       (simp add: print_valid [OF True])
next
  case False
  show ?thesis
    by (rule exI [of _ None], rule exI [of _ "error_message @ [newline]"])
       (simp add: print_invalid [OF False])
qed

section \<open>Centering and alignment\<close>

text \<open>
  C5: centering in the field of 3 puts the odd padding space on the right. A value of
  one character gets one space before and one after; a value of two characters gets no
  space before and exactly one after. In the output: for an input of \<open>0\<close> and \<open>1\<close> of
  length \<open>N\<close> at most 1000 with a \<open>1\<close> at a position \<open>i\<close> whose reversed index
  \<open>N-1-i\<close> has two digits (so \<open>i + 11 \<le> N \<le> i + 100\<close>, and \<open>N\<close> is at least 11), the
  three characters of the indices line under position \<open>i\<close> are the two digits and a
  space.
\<close>

theorem centering_pads_right_when_odd:
  "(length v = 1 \<longrightarrow> format_center v 3 = [space] @ v @ [space])
   \<and> (length v = 2 \<longrightarrow> format_center v 3 = v @ [space])
   \<and> (set s \<subseteq> {of_char CHR ''0'', of_char CHR ''1''} \<and> s ! i = of_char CHR ''1''
        \<and> i + 11 \<le> length s \<and> length s \<le> i + 100 \<and> length s \<le> 1000 \<longrightarrow>
        (\<exists>line2. indices_line s = Inr line2
           \<and> take 3 (drop (3 * i) line2)
               = [48 + (length s - 1 - i) div 10, 48 + (length s - 1 - i) mod 10, space]))"
proof (intro conjI impI)
  assume "length v = 1"
  then show "format_center v 3 = [space] @ v @ [space]"
    by (simp add: format_center_def Let_def)
next
  assume "length v = 2"
  then show "format_center v 3 = v @ [space]"
    by (simp add: format_center_def Let_def)
next
  assume a: "set s \<subseteq> {of_char CHR ''0'', of_char CHR ''1''} \<and> s ! i = of_char CHR ''1''
        \<and> i + 11 \<le> length s \<and> length s \<le> i + 100 \<and> length s \<le> 1000"
  then have n: "length s \<le> 1000" and i: "i < length s" by simp_all
  have "take 3 (drop (3 * i) (concat (map (spec_field s) [0..<length s])))
        = spec_field s ([0..<length s] ! i)"
    using i by (intro concat_map_field) (simp_all add: spec_field_length_3 [OF n])
  moreover have "digits (length s - 1 - i)
        = [48 + (length s - 1 - i) div 10, 48 + (length s - 1 - i) mod 10]"
    using a by (intro digits_two) arith+
  then have "spec_field s i
        = [48 + (length s - 1 - i) div 10, 48 + (length s - 1 - i) mod 10, space]"
    using a by (simp add: spec_field_def spec_center_def Let_def)
  ultimately show "\<exists>line2. indices_line s = Inr line2
           \<and> take 3 (drop (3 * i) line2)
               = [48 + (length s - 1 - i) div 10, 48 + (length s - 1 - i) mod 10, space]"
    using i by (simp add: indices_line_spec spec_indices_line_def)
qed

theorem centering_pads_right_when_odd_witness:
  "format_center (py ''7'') 3 = py '' 7 ''
   \<and> format_center (py ''10'') 3 = py ''10 ''
   \<and> (\<exists>line2. indices_line (py ''10000000000'') = Inr line2 \<and> take 3 line2 = py ''10 '')"
proof -
  have h: "set (py ''10000000000'') \<subseteq> {of_char CHR ''0'', of_char CHR ''1''}"
    by (simp add: py_def)
  from centering_pads_right_when_odd [of "py ''7''" "py ''10000000000''" 0] centering_pads_right_when_odd [of "py ''10''" "py ''10000000000''" 0] h
  show ?thesis by (simp add: py_def space_def)
qed

text \<open>
  C10: for an input of \<open>0\<close> and \<open>1\<close> of length \<open>N\<close> at most 1000, the bits line and the
  indices line both have length \<open>3 * N\<close>. When a \<open>1\<close> stands at a position whose
  reversed index exceeds 999 (so \<open>N\<close> exceeds 1000), the bits line still has length
  \<open>3 * N\<close> and the indices line is longer.
\<close>

theorem lines_aligned_up_to_length_1000:
  assumes "set s \<subseteq> {of_char CHR ''0'', of_char CHR ''1''}"
  shows "(length s \<le> 1000 \<longrightarrow>
            length (bits_line s) = 3 * length s
          \<and> (\<exists>line2. indices_line s = Inr line2 \<and> length line2 = 3 * length s))
       \<and> (i < length s \<and> s ! i = of_char CHR ''1'' \<and> 999 < length s - 1 - i \<longrightarrow>
            length (bits_line s) = 3 * length s
          \<and> (\<exists>line2. indices_line s = Inr line2 \<and> 3 * length s < length line2))"
proof (intro conjI impI)
  show "length (bits_line s) = 3 * length s" "length (bits_line s) = 3 * length s"
    by (simp_all add: bits_line_spec bits_length)
next
  assume n: "length s \<le> 1000"
  have "length (concat (map (spec_field s) [0..<length s])) = 3 * length [0..<length s]"
    by (rule concat_map_length_const) (simp add: spec_field_length_3 [OF n])
  then show "\<exists>line2. indices_line s = Inr line2 \<and> length line2 = 3 * length s"
    by (simp add: indices_line_spec spec_indices_line_def)
next
  assume a: "i < length s \<and> s ! i = of_char CHR ''1'' \<and> 999 < length s - 1 - i"
  then have "4 \<le> length (digits (length s - 1 - i))"
    by (intro digits_length_ge4) simp
  with a have "3 < length (spec_field s i)"
    by (simp add: spec_field_def spec_center_length)
  moreover from a have "i \<in> set [0..<length s]" by simp
  ultimately have "3 * length [0..<length s] < length (concat (map (spec_field s) [0..<length s]))"
    by (intro concat_map_length_gt [where y = i]) (simp_all add: spec_field_length_ge)
  then show "\<exists>line2. indices_line s = Inr line2 \<and> 3 * length s < length line2"
    by (simp add: indices_line_spec spec_indices_line_def)
qed

theorem lines_aligned_up_to_length_1000_witness:
  "length (bits_line (py ''101'')) = 9
   \<and> (\<exists>line2. indices_line (py ''101'') = Inr line2 \<and> length line2 = 9)
   \<and> length (bits_line (49 # replicate 1000 48)) = 3003
   \<and> (\<exists>line2. indices_line (49 # replicate 1000 48) = Inr line2 \<and> 3003 < length line2)"
proof -
  have h1: "set (py ''101'') \<subseteq> {of_char CHR ''0'', of_char CHR ''1''}"
    by (simp add: py_def)
  have h2: "set (49 # replicate 1000 48) \<subseteq> {of_char CHR ''0'', of_char CHR ''1''}"
    by auto
  from lines_aligned_up_to_length_1000 [OF h1, of 0] lines_aligned_up_to_length_1000 [OF h2, of 0]
  show ?thesis by (simp add: py_def)
qed

section \<open>The entry point\<close>

text \<open>
  C9: when a line is available on standard input, the entry point writes the prompt
  \<open>Enter a binary string: \<close>, takes that one line and leaves the others, and calls the
  function on the line without its leading and trailing whitespace: the stripped text
  results from removing a run of whitespace at each end and neither begins nor ends
  with whitespace. So a line made of whitespace, a string of \<open>0\<close> and \<open>1\<close>, and
  whitespace is accepted, and its two lines are written after the prompt.
\<close>

theorem entry_point_reads_and_strips_one_line:
  assumes "stdin w = line # rest"
  shows "main w = print_binary_with_one_indices_reversed (py_strip line)
                    (w\<lparr>stdout := stdout w @ py ''Enter a binary string: '', stdin := rest\<rparr>)
       \<and> stdin (snd (main w)) = rest
       \<and> (\<exists>l r. line = l @ py_strip line @ r \<and> list_all py_isspace l \<and> list_all py_isspace r
             \<and> (py_strip line = []
                 \<or> \<not> py_isspace (hd (py_strip line)) \<and> \<not> py_isspace (last (py_strip line))))
       \<and> (\<forall>l core r. line = l @ core @ r \<and> list_all py_isspace l \<and> list_all py_isspace r
             \<and> set core \<subseteq> {of_char CHR ''0'', of_char CHR ''1''} \<longrightarrow>
             main w = (None, w\<lparr>stdout := stdout w @ py ''Enter a binary string: ''
                                     @ bits_line core @ [newline]
                                     @ spec_indices_line core @ [newline],
                                 stdin := rest\<rparr>))"
proof (intro conjI allI impI)
  show m: "main w = print_binary_with_one_indices_reversed (py_strip line)
                    (w\<lparr>stdout := stdout w @ py ''Enter a binary string: '', stdin := rest\<rparr>)"
    using main_reads_line [OF assms] by (simp add: prompt_def)
  show "stdin (snd (main w)) = rest"
    by (cases "all_binary (py_strip line)") (simp_all add: m print_valid print_invalid)
  show "\<exists>l r. line = l @ py_strip line @ r \<and> list_all py_isspace l \<and> list_all py_isspace r
             \<and> (py_strip line = []
                 \<or> \<not> py_isspace (hd (py_strip line)) \<and> \<not> py_isspace (last (py_strip line)))"
    by (rule py_strip_decompose)
  fix l core r
  assume a: "line = l @ core @ r \<and> list_all py_isspace l \<and> list_all py_isspace r
             \<and> set core \<subseteq> {of_char CHR ''0'', of_char CHR ''1''}"
  then have v: "all_binary core" by (simp add: all_binary_subset)
  then have "\<forall>c\<in>set core. \<not> py_isspace c" by (blast dest: binary_not_space)
  with a have "py_strip line = core" by (simp add: py_strip_core)
  with m v show "main w = (None, w\<lparr>stdout := stdout w @ py ''Enter a binary string: ''
                                     @ bits_line core @ [newline]
                                     @ spec_indices_line core @ [newline],
                                 stdin := rest\<rparr>)"
    by (simp add: print_valid bits_line_spec)
qed

theorem entry_point_reads_and_strips_one_line_witness:
  "main \<lparr>stdin = [py ''  101 '', py ''11''], stdout = []\<rparr> =
     (None, \<lparr>stdin = [py ''11''],
             stdout = py ''Enter a binary string:  1  0  1 '' @ [10] @ py '' 2     0 '' @ [10]\<rparr>)"
proof -
  have s: "stdin \<lparr>stdin = [py ''  101 '', py ''11''], stdout = []\<rparr> = py ''  101 '' # [py ''11'']"
    by simp
  have l1: "bits_line (py ''101'') = py '' 1  0  1 ''"
    by code_simp
  have l2: "spec_indices_line (py ''101'') = py '' 2     0 ''"
    by code_simp
  have d: "py ''  101 '' = py ''  '' @ py ''101'' @ py '' ''
           \<and> list_all py_isspace (py ''  '') \<and> list_all py_isspace (py '' '')
           \<and> set (py ''101'') \<subseteq> {of_char CHR ''0'', of_char CHR ''1''}"
    by (simp add: py_def py_isspace_def)
  note t = entry_point_reads_and_strips_one_line [OF s, THEN conjunct2, THEN conjunct2, THEN conjunct2, rule_format, OF d]
  from t show ?thesis
    by (simp only: l1 l2) (simp add: newline_def py_def)
qed

end
